theory Spec2Isabelle
  imports Complex_Main "HOL-Library.Multiset" "HOL-Library.Sublist"
begin

section \<open>Historic\_Crypto: the historical-data retrieval of \<open>HistoricalData.py\<close>\<close>

text \<open>
  A shallow embedding of class \<open>HistoricalData\<close>. A naive \<open>datetime\<close> is the number of
  seconds on its wall clock (the strings \<open>YYYY-MM-DD-HH-MM\<close> are parsed by the library's
  \<open>strptime\<close>; the model starts from the parsed instants). Everything the remote API, the
  clock, the library's argsort and pandas' float cast contribute is a field of the record
  \<open>world\<close>. The calls
  to \<open>print\<close> and to \<open>time.sleep\<close> are left out. Every network call is appended to a log,
  and every exception is a value of type \<open>error\<close>.
\<close>

subsection \<open>Data\<close>

type_synonym datetime = int

datatype error =
  TypeError | ValueError | KeyError | ZeroDivisionError
  | HTTPError | ConnectionError | RequestException

text \<open>The dict \<open>GRANULARITIES\<close>, seconds to the API's token.\<close>

definition GRANULARITIES :: "(int \<times> string) list" where
  "GRANULARITIES =
     [(60, ''ONE_MINUTE''), (300, ''FIVE_MINUTE''), (900, ''FIFTEEN_MINUTE''),
      (1800, ''THIRTY_MINUTE''), (3600, ''ONE_HOUR''), (7200, ''TWO_HOUR''),
      (21600, ''SIX_HOUR''), (86400, ''ONE_DAY'')]"

text \<open>The attributes of a \<open>HistoricalData\<close> object that \<open>retrieve_data\<close> reads.\<close>

record HistoricalData =
  ticker :: string
  granularity :: int
  start_date :: datetime
  end_date :: datetime

text \<open>
  One row of the candle table: the column \<open>time\<close> (seconds since the epoch, which
  \<open>pd.to_datetime(unit='s')\<close> turns into a naive datetime) and the five value columns,
  of a type \<open>'v\<close> of parsed JSON values.
\<close>

record 'v row =
  r_time :: int
  r_low :: 'v
  r_high :: 'v
  r_open :: 'v
  r_close :: 'v
  r_volume :: 'v

text \<open>The five columns left once \<open>time\<close> has become the index.\<close>

definition columns :: "'v row \<Rightarrow> 'v list" where
  "columns r = [r_low r, r_high r, r_open r, r_close r, r_volume r]"

text \<open>
  A URL's \<open>start\<close> and \<open>end\<close>: the single request formats \<open>int(start.timestamp())\<close>, the
  chunk requests format the datetime itself.
\<close>

datatype url_time = Unix int | Text datetime

fun instant :: "url_time \<Rightarrow> int" where
  "instant (Unix n) = n"
| "instant (Text d) = d"

record request =
  rq_ticker :: string
  rq_start :: url_time
  rq_end :: url_time
  rq_granularity :: string
  rq_limit :: int

datatype call = GetProducts | GetCandles request

record products_response =
  p_status :: int
  p_ids :: "string list"

record 'v candles_response =
  status_code :: int
  candles :: "'v row list"

record 'v world =
  products :: products_response
  candles_api :: "request \<Rightarrow> 'v candles_response"
  timestamp :: "datetime \<Rightarrow> int"
  argsort :: "int list \<Rightarrow> nat list"
  to_float :: "'v \<Rightarrow> 'v option"

subsection \<open>\<open>__init__\<close>\<close>


subsection \<open>\<open>_ticker_checker\<close>\<close>

definition success :: "int list" where
  "success = [200, 201, 202, 203, 204]"

text \<open>The \<open>elif\<close> chain after the success branch, the same at all three requests.\<close>

definition status_error :: "int \<Rightarrow> error" where
  "status_error s =
     (if s \<in> set [400, 401, 404] then HTTPError
      else if s \<in> set [403, 500, 501] then ConnectionError
      else RequestException)"

text \<open>\<open>response_data["id"]\<close> raises \<open>KeyError\<close> on the frame of an empty catalogue.\<close>

definition ticker_checker :: "'v world \<Rightarrow> HistoricalData \<Rightarrow> error + unit" where
  "ticker_checker w self =
     (let tkr_response = products w in
      if p_status tkr_response \<in> set success then
        (if p_ids tkr_response = [] then Inl KeyError
         else if ticker self \<in> set (p_ids tkr_response) then Inr ()
         else Inl ValueError)
      else Inl (status_error (p_status tkr_response)))"

subsection \<open>The frame operations of pandas that \<open>retrieve_data\<close> uses\<close>

text \<open>\<open>data[data['time'].between(start, end)]\<close>, both bounds inclusive.\<close>

definition between :: "datetime \<Rightarrow> datetime \<Rightarrow> 'v row list \<Rightarrow> 'v row list" where
  "between start end' data = filter (\<lambda>r. start \<le> r_time r \<and> r_time r \<le> end') data"

text \<open>
  \<open>sort_index(ascending=True)\<close> takes the rows in the order of an argsort of the index.
  The default kind of that argsort (quicksort) is not stable: the index decides that the
  result is ascending, not in which order rows of one timestamp come. So the permutation is
  the world's to give (\<open>argsort\<close>, applied to the index); any permutation of the positions
  that puts the index in ascending order is taken as it is, and only a proposal that is no
  such permutation is replaced by the stable one.
\<close>

definition sorting_permutation :: "int list \<Rightarrow> nat list \<Rightarrow> bool" where
  "sorting_permutation keys p \<longleftrightarrow>
     length p = length keys \<and> distinct p \<and> list_all (\<lambda>i. i < length keys) p
     \<and> sorted (map (nth keys) p)"

definition sort_index :: "(int list \<Rightarrow> nat list) \<Rightarrow> 'v row list \<Rightarrow> 'v row list" where
  "sort_index sorter data =
     (let index = map r_time data; p = sorter index
      in if sorting_permutation index p then map (nth data) p else sort_key r_time data)"

text \<open>
  \<open>drop_duplicates(subset=None, keep='first')\<close> after \<open>set_index("time")\<close>: a row is a
  duplicate when its five columns equal those of a row before it; the index is not
  looked at.
\<close>

fun drop_dups :: "'v list list \<Rightarrow> 'v row list \<Rightarrow> 'v row list" where
  "drop_dups seen [] = []"
| "drop_dups seen (r # rs) =
     (if columns r \<in> set seen then drop_dups seen rs
      else r # drop_dups (columns r # seen) rs)"

definition drop_duplicates :: "'v row list \<Rightarrow> 'v row list" where
  "drop_duplicates data = drop_dups [] data"

text \<open>Lines 143 to 147 and 200 to 204: the same four steps in both branches.\<close>

definition assemble ::
  "(int list \<Rightarrow> nat list) \<Rightarrow> datetime \<Rightarrow> datetime \<Rightarrow> 'v row list \<Rightarrow> 'v row list" where
  "assemble sorter start end' data =
     drop_duplicates (sort_index sorter (between start end' data))"

text \<open>\<open>data.astype(float)\<close>: every value column is cast; a value that does not cast raises.\<close>

definition cast_row :: "('v \<Rightarrow> 'v option) \<Rightarrow> 'v row \<Rightarrow> 'v row option" where
  "cast_row f r =
     (case (f (r_low r), f (r_high r), f (r_open r), f (r_close r), f (r_volume r)) of
        (Some l, Some h, Some o', Some c, Some v) \<Rightarrow>
          Some \<lparr>r_time = r_time r, r_low = l, r_high = h, r_open = o', r_close = c, r_volume = v\<rparr>
      | _ \<Rightarrow> None)"

fun astype_float :: "('v \<Rightarrow> 'v option) \<Rightarrow> 'v row list \<Rightarrow> error + 'v row list" where
  "astype_float f [] = Inr []"
| "astype_float f (r # rs) =
     (case cast_row f r of
        None \<Rightarrow> Inl ValueError
      | Some r' \<Rightarrow>
          (case astype_float f rs of Inl e \<Rightarrow> Inl e | Inr rs' \<Rightarrow> Inr (r' # rs')))"

text \<open>\<open>if not dataset.empty: data = data.append(dataset)\<close>.\<close>

definition append_dataset :: "'v row list \<Rightarrow> 'v row list \<Rightarrow> 'v row list" where
  "append_dataset data dataset = (if dataset \<noteq> [] then data @ dataset else data)"

subsection \<open>\<open>retrieve_data\<close>\<close>

text \<open>
  \<open>abs((end - start).total_seconds()) / self.granularity\<close> is a float, and
  \<open>pd.date_range(start, end, periods)\<close> casts float periods with \<open>int\<close>, which truncates
  towards zero, and returns that many instants: \<open>len(times)\<close> is the truncated quotient.
  (The spans of two datetimes are far below \<open>2^53\<close> seconds, so the float quotient
  truncates to the integer quotient.)
\<close>

definition periods :: "HistoricalData \<Rightarrow> int" where
  "periods self =
     (let span = \<bar>end_date self - start_date self\<bar>; g = granularity self in
      if 0 < g then span div g else - (span div (- g)))"

definition max_per_mssg :: int where
  "max_per_mssg = 300"

definition single_request :: "'v world \<Rightarrow> HistoricalData \<Rightarrow> int \<Rightarrow> string \<Rightarrow> request" where
  "single_request w self request_volume token =
     \<lparr>rq_ticker = ticker self,
      rq_start = Unix (timestamp w (start_date self)),
      rq_end = Unix (timestamp w (end_date self)),
      rq_granularity = token,
      rq_limit = request_volume\<rparr>"

definition chunk_request :: "HistoricalData \<Rightarrow> int \<Rightarrow> string \<Rightarrow> nat \<Rightarrow> request" where
  "chunk_request self request_volume token i =
     (let provisional_start = start_date self + int i * (granularity self * max_per_mssg);
          provisional_end = start_date self + (int i + 1) * (granularity self * max_per_mssg)
      in \<lparr>rq_ticker = ticker self,
          rq_start = Text provisional_start,
          rq_end = Text provisional_end,
          rq_granularity = token,
          rq_limit = request_volume\<rparr>)"

text \<open>
  The \<open>for\<close> loop over \<open>range(int(request_volume / max_per_mssg) + 1)\<close>, with the log of
  the calls made so far and the frame \<open>data\<close> collected so far. A raise leaves the loop
  with the error alone.
\<close>

fun chunk_loop ::
  "'v world \<Rightarrow> HistoricalData \<Rightarrow> int \<Rightarrow> string \<Rightarrow> nat list \<Rightarrow> call list \<Rightarrow> 'v row list
     \<Rightarrow> call list \<times> (error + 'v row list)" where
  "chunk_loop w self request_volume token [] calls data = (calls, Inr data)"
| "chunk_loop w self request_volume token (i # is) calls data =
     (let url = chunk_request self request_volume token i;
          response = candles_api w url;
          calls' = calls @ [GetCandles url]
      in if status_code response \<in> set success then
           chunk_loop w self request_volume token is calls'
             (append_dataset data (candles response))
         else (calls', Inl (status_error (status_code response))))"

text \<open>
  \<open>data.columns = [...]\<close> raises \<open>ValueError\<close> (length mismatch) on a frame without
  columns, which is what \<open>pd.DataFrame([])\<close> and \<open>pd.DataFrame()\<close> are. The lookup
  \<open>GRANULARITIES[self.granularity]\<close> happens where the URL is formatted.
\<close>

definition retrieve_data ::
  "'v world \<Rightarrow> HistoricalData \<Rightarrow> call list \<times> (error + 'v row list)" where
  "retrieve_data w self =
     (case ticker_checker w self of
        Inl e \<Rightarrow> ([GetProducts], Inl e)
      | Inr _ \<Rightarrow>
          if granularity self = 0 then ([GetProducts], Inl ZeroDivisionError)
          else
            let request_volume = periods self in
            if request_volume < 0 then ([GetProducts], Inl ValueError)
            else if request_volume \<le> 300 then
              (case map_of GRANULARITIES (granularity self) of
                 None \<Rightarrow> ([GetProducts], Inl KeyError)
               | Some token \<Rightarrow>
                   let url = single_request w self request_volume token;
                       response = candles_api w url;
                       calls = [GetProducts, GetCandles url]
                   in if status_code response \<in> set success then
                        (if candles response = [] then (calls, Inl ValueError)
                         else (calls, Inr (assemble (argsort w) (start_date self) (end_date self)
                                           (candles response))))
                      else (calls, Inl (status_error (status_code response))))
            else
              (case map_of GRANULARITIES (granularity self) of
                 None \<Rightarrow> ([GetProducts], Inl KeyError)
               | Some token \<Rightarrow>
                   (case chunk_loop w self request_volume token
                           [0 ..< nat (request_volume div max_per_mssg) + 1] [GetProducts] [] of
                      (calls, Inl e) \<Rightarrow> (calls, Inl e)
                    | (calls, Inr data) \<Rightarrow>
                        if data = [] then (calls, Inl ValueError)
                        else (calls, astype_float (to_float w)
                                     (assemble (argsort w) (start_date self) (end_date self) data)))))"

text \<open>The candle requests of a log, in the order they were made.\<close>

fun candle_requests :: "call list \<Rightarrow> request list" where
  "candle_requests [] = []"
| "candle_requests (GetProducts # cs) = candle_requests cs"
| "candle_requests (GetCandles rq # cs) = rq # candle_requests cs"

subsection \<open>The planner and the assembler as the specification words them\<close>

text \<open>
  Following the specification's words (Window Planner):
  \<open>expected_count = ceil(|end - start| / granularity_seconds)\<close>.
\<close>

definition expected_count_spec :: "datetime \<Rightarrow> datetime \<Rightarrow> int \<Rightarrow> int" where
  "expected_count_spec start end' g = \<lceil>real_of_int \<bar>end' - start\<bar> / real_of_int g\<rceil>"



subsection \<open>Concrete worlds and objects\<close>

text \<open>
  Values as a remote sending JSON integers gives them: \<open>IntVal n\<close> is the integer as
  parsed, \<open>FloatVal n\<close> the float \<open>n.0\<close> that \<open>astype(float)\<close> makes of it.
\<close>

datatype cell = IntVal int | FloatVal int

fun cell_to_float :: "cell \<Rightarrow> cell option" where
  "cell_to_float (IntVal n) = Some (FloatVal n)"
| "cell_to_float (FloatVal n) = Some (FloatVal n)"

text \<open>A candle at time \<open>t\<close> whose four prices are \<open>p\<close>, with volume 1.\<close>

definition flat_row :: "int \<Rightarrow> int \<Rightarrow> cell row" where
  "flat_row t p =
     \<lparr>r_time = t, r_low = IntVal p, r_high = IntVal p, r_open = IntVal p,
      r_close = IntVal p, r_volume = IntVal 1\<rparr>"

text \<open>The stable argsort: positions in ascending order of their keys, ties in place.\<close>

definition stable_argsort :: "int list \<Rightarrow> nat list" where
  "stable_argsort keys = sort_key (nth keys) [0 ..< length keys]"

text \<open>
  A catalogue listing two tickers, a clock on UTC, the stable argsort, and the candle
  endpoint \<open>api\<close>.
\<close>

definition example_world :: "(request \<Rightarrow> cell candles_response) \<Rightarrow> cell world" where
  "example_world api =
     \<lparr>products = \<lparr>p_status = 200, p_ids = [''BTC-USD'', ''ETH-USD'']\<rparr>,
      candles_api = api,
      timestamp = (\<lambda>d. d),
      argsort = stable_argsort,
      to_float = cell_to_float\<rparr>"

definition btc :: "int \<Rightarrow> datetime \<Rightarrow> datetime \<Rightarrow> HistoricalData" where
  "btc g s e = \<lparr>ticker = ''BTC-USD'', granularity = g, start_date = s, end_date = e\<rparr>"

text \<open>One candle per request, at the request's start, priced by its own time.\<close>

definition steady_api :: "request \<Rightarrow> cell candles_response" where
  "steady_api rq =
     \<lparr>status_code = 200,
      candles = [flat_row (instant (rq_start rq)) (instant (rq_start rq) + 1)]\<rparr>"

text \<open>No candles at all: every request succeeds with an empty array.\<close>

definition empty_api :: "request \<Rightarrow> cell candles_response" where
  "empty_api rq = \<lparr>status_code = 200, candles = []\<rparr>"

text \<open>Two rows of one timestamp with different prices.\<close>

definition twin_api :: "request \<Rightarrow> cell candles_response" where
  "twin_api rq = \<lparr>status_code = 200, candles = [flat_row 3600 7, flat_row 3600 8]\<rparr>"

text \<open>Status 404 for the request that starts at second 18000, one candle otherwise.\<close>

definition second_404_api :: "request \<Rightarrow> cell candles_response" where
  "second_404_api rq =
     (if rq_start rq = Text 18000 then \<lparr>status_code = 404, candles = []\<rparr>
      else steady_api rq)"

text \<open>The same three candles whatever the request asks for.\<close>

definition fixed_api :: "request \<Rightarrow> cell candles_response" where
  "fixed_api rq =
     (if instant (rq_start rq) = 0
      then \<lparr>status_code = 200, candles = [flat_row 120 5, flat_row 60 4, flat_row 0 3]\<rparr>
      else \<lparr>status_code = 200, candles = []\<rparr>)"

lemmas example_defs =
  retrieve_data_def ticker_checker_def example_world_def btc_def success_def periods_def
  GRANULARITIES_def max_per_mssg_def Let_def chunk_request_def single_request_def
  append_dataset_def assemble_def between_def sort_index_def drop_duplicates_def
  sorting_permutation_def stable_argsort_def
  flat_row_def columns_def cast_row_def status_error_def

section \<open>Lemmas about the loop and the two branches\<close>

lemma loop_all_ok:
  "\<forall>i\<in>set js. status_code (candles_api w (chunk_request self rv tok i)) \<in> set success \<Longrightarrow>
   chunk_loop w self rv tok js calls data =
     (calls @ map (\<lambda>i. GetCandles (chunk_request self rv tok i)) js,
      Inr (foldl append_dataset data
             (map (\<lambda>i. candles (candles_api w (chunk_request self rv tok i))) js)))"
  by (induction js arbitrary: calls data) (simp_all add: Let_def)

lemma loop_first_failure:
  "\<forall>i\<in>set pre. status_code (candles_api w (chunk_request self rv tok i)) \<in> set success \<Longrightarrow>
   status_code (candles_api w (chunk_request self rv tok j)) \<notin> set success \<Longrightarrow>
   chunk_loop w self rv tok (pre @ j # post) calls data =
     (calls @ map (\<lambda>i. GetCandles (chunk_request self rv tok i)) (pre @ [j]),
      Inl (status_error (status_code (candles_api w (chunk_request self rv tok j)))))"
  by (induction pre arbitrary: calls data) (simp_all add: Let_def)

lemma foldl_append_dataset: "foldl append_dataset data cs = data @ concat cs"
  by (induction cs arbitrary: data) (simp_all add: append_dataset_def)

lemma candle_requests_append: "candle_requests (xs @ ys) = candle_requests xs @ candle_requests ys"
  by (induction xs rule: candle_requests.induct) simp_all

lemma candle_requests_map: "candle_requests (map (\<lambda>i. GetCandles (f i)) js) = map f js"
  by (induction js) simp_all

lemma GetCandles_in_log: "GetCandles rq \<in> set calls \<longleftrightarrow> rq \<in> set (candle_requests calls)"
  by (induction calls rule: candle_requests.induct) auto

lemma granularity_pos: "map_of GRANULARITIES g = Some tok \<Longrightarrow> 60 \<le> g"
  by (simp add: GRANULARITIES_def split: if_splits)

lemma granularity_token: "g \<in> fst ` set GRANULARITIES \<Longrightarrow> \<exists>tok. map_of GRANULARITIES g = Some tok"
  by (auto simp add: GRANULARITIES_def)

lemma retrieve_multi:
  assumes "ticker_checker w self = Inr ()"
    and "map_of GRANULARITIES (granularity self) = Some tok"
    and "300 < periods self"
  shows "retrieve_data w self =
     (case chunk_loop w self (periods self) tok
             [0 ..< nat (periods self div 300) + 1] [GetProducts] [] of
        (calls, Inl e) \<Rightarrow> (calls, Inl e)
      | (calls, Inr data) \<Rightarrow>
          if data = [] then (calls, Inl ValueError)
          else (calls, astype_float (to_float w)
                       (assemble (argsort w) (start_date self) (end_date self) data)))"
  using assms granularity_pos[OF assms(2)]
  by (simp add: retrieve_data_def Let_def max_per_mssg_def)

lemma retrieve_single:
  assumes "ticker_checker w self = Inr ()"
    and "map_of GRANULARITIES (granularity self) = Some tok"
    and "periods self \<le> 300"
  shows "retrieve_data w self =
     (let url = single_request w self (periods self) tok;
          response = candles_api w url;
          calls = [GetProducts, GetCandles url]
      in if status_code response \<in> set success then
           (if candles response = [] then (calls, Inl ValueError)
            else (calls, Inr (assemble (argsort w) (start_date self) (end_date self) (candles response))))
         else (calls, Inl (status_error (status_code response))))"
proof -
  have g: "60 \<le> granularity self" using granularity_pos[OF assms(2)] .
  then have "0 \<le> periods self" by (simp add: periods_def Let_def pos_imp_zdiv_nonneg_iff)
  with assms g show ?thesis
    by (simp add: retrieve_data_def Let_def)
qed

text \<open>The loop either gets a success for every index, or stops at the first other status.\<close>

lemma loop_cases:
  obtains
    (all_ok) "\<forall>i\<in>set js. status_code (candles_api w (chunk_request self rv tok i)) \<in> set success"
      "chunk_loop w self rv tok js calls data =
        (calls @ map (\<lambda>i. GetCandles (chunk_request self rv tok i)) js,
         Inr (foldl append_dataset data
             (map (\<lambda>i. candles (candles_api w (chunk_request self rv tok i))) js)))"
  | (failed) pre j post where "js = pre @ j # post"
      "\<forall>i\<in>set pre. status_code (candles_api w (chunk_request self rv tok i)) \<in> set success"
      "status_code (candles_api w (chunk_request self rv tok j)) \<notin> set success"
      "chunk_loop w self rv tok js calls data =
        (calls @ map (\<lambda>i. GetCandles (chunk_request self rv tok i)) (pre @ [j]),
         Inl (status_error (status_code (candles_api w (chunk_request self rv tok j)))))"
proof (cases "\<forall>i\<in>set js. status_code (candles_api w (chunk_request self rv tok i)) \<in> set success")
  case True
  then show ?thesis using all_ok loop_all_ok by blast
next
  case False
  then have "\<exists>i\<in>set js. status_code (candles_api w (chunk_request self rv tok i)) \<notin> set success"
    by blast
  then obtain pre j post where s: "js = pre @ j # post"
     "status_code (candles_api w (chunk_request self rv tok j)) \<notin> set success"
     "\<forall>i\<in>set pre. \<not> status_code (candles_api w (chunk_request self rv tok i)) \<notin> set success"
    using split_list_first_prop[of js "\<lambda>i. status_code (candles_api w (chunk_request self rv tok i)) \<notin> set success"]
    by blast
  then have p: "\<forall>i\<in>set pre. status_code (candles_api w (chunk_request self rv tok i)) \<in> set success"
    by blast
  show ?thesis
    using failed[OF s(1) p s(2)] loop_first_failure[OF p s(2)] s(1) by blast
qed

lemma upt_split:
  assumes "[0..<n] = pre @ j # post"
  shows "pre = [0..<j] \<and> j < n"
proof -
  have len: "length pre < n"
    using arg_cong[OF assms, of length] by simp
  have "[0..<n] ! length pre = j"
    by (simp add: assms)
  with len have j: "j = length pre" by simp
  have "take (length pre) [0..<n] = pre"
    by (simp add: assms)
  with len j show ?thesis by (simp add: take_upt)
qed

lemma multi_run:
  assumes tick: "ticker_checker w self = Inr ()"
    and tok: "map_of GRANULARITIES (granularity self) = Some tok"
    and big: "300 < periods self"
  obtains
    (complete)
      "\<forall>i < nat (periods self div 300) + 1.
          status_code (candles_api w (chunk_request self (periods self) tok i)) \<in> set success"
      "fst (retrieve_data w self) =
         GetProducts # map (\<lambda>i. GetCandles (chunk_request self (periods self) tok i))
                         [0 ..< nat (periods self div 300) + 1]"
      "snd (retrieve_data w self) =
         (let data = foldl append_dataset []
                (map (\<lambda>i. candles (candles_api w (chunk_request self (periods self) tok i)))
                   [0 ..< nat (periods self div 300) + 1])
          in if data = [] then Inl ValueError
             else astype_float (to_float w) (assemble (argsort w) (start_date self) (end_date self) data))"
  | (aborted) k where
      "k < nat (periods self div 300) + 1"
      "\<forall>i < k. status_code (candles_api w (chunk_request self (periods self) tok i)) \<in> set success"
      "status_code (candles_api w (chunk_request self (periods self) tok k)) \<notin> set success"
      "fst (retrieve_data w self) =
         GetProducts # map (\<lambda>i. GetCandles (chunk_request self (periods self) tok i)) [0 ..< Suc k]"
      "snd (retrieve_data w self) =
         Inl (status_error (status_code (candles_api w (chunk_request self (periods self) tok k))))"
proof -
  define n where "n = nat (periods self div 300) + 1"
  note r = retrieve_multi[OF tick tok big, folded n_def]
  show thesis
  proof (cases rule: loop_cases[of "[0..<n]" w self "periods self" tok "[GetProducts]" "[]"])
    case all_ok
    show ?thesis
    proof (rule complete[folded n_def])
      show "\<forall>i < n. status_code (candles_api w (chunk_request self (periods self) tok i)) \<in> set success"
        using all_ok(1) by simp
    qed (simp_all add: r all_ok(2) Let_def)
  next
    case (failed pre j post)
    from upt_split[OF failed(1)] have pj: "pre = [0..<j]" "j < n" by simp_all
    show ?thesis
    proof (rule aborted[of j, folded n_def])
      show "j < n" by (rule pj)
      show "\<forall>i<j. status_code (candles_api w (chunk_request self (periods self) tok i)) \<in> set success"
        using failed(2) pj by simp
      show "status_code (candles_api w (chunk_request self (periods self) tok j)) \<notin> set success"
        by (rule failed(3))
      show "fst (retrieve_data w self) =
         GetProducts # map (\<lambda>i. GetCandles (chunk_request self (periods self) tok i)) [0 ..< Suc j]"
        using failed(4) pj by (simp add: r)
      show "snd (retrieve_data w self) =
         Inl (status_error (status_code (candles_api w (chunk_request self (periods self) tok j))))"
        using failed(4) by (simp add: r)
    qed
  qed
qed

lemma chunk_request_fields:
  "rq_start (chunk_request self rv tok i) = Text (start_date self + int i * (300 * granularity self))"
  "rq_end (chunk_request self rv tok i) = Text (start_date self + int i * (300 * granularity self) + 300 * granularity self)"
  "rq_limit (chunk_request self rv tok i) = rv"
  "rq_ticker (chunk_request self rv tok i) = ticker self"
  "rq_granularity (chunk_request self rv tok i) = tok"
  by (simp_all add: chunk_request_def max_per_mssg_def Let_def algebra_simps)

lemma periods_pos: "0 < g \<Longrightarrow> granularity self = g \<Longrightarrow> periods self = \<bar>end_date self - start_date self\<bar> div g"
  by (simp add: periods_def Let_def)

lemma overshoot:
  assumes g: "0 < (g::int)" and v: "v = a div g" and nn: "0 \<le> v"
  shows "a < (int (nat (v div 300)) + 1) * (300 * g)"
proof -
  have "a = g * (a div g) + a mod g" by simp
  moreover have "a mod g < g" using g by simp
  ultimately have "a < g * (a div g) + g" by linarith
  then have "a < g * v + g" by (simp only: v)
  then have 1: "a < (v + 1) * g" by (simp add: algebra_simps)
  have "v + 1 \<le> 300 * (v div 300 + 1)" by presburger
  then have "(v + 1) * g \<le> (300 * (v div 300 + 1)) * g"
    using g by (intro mult_right_mono) simp_all
  moreover have "int (nat (v div 300)) = v div 300"
    using nn by (simp add: pos_imp_zdiv_nonneg_iff)
  ultimately show ?thesis using 1 by (simp add: algebra_simps)
qed


lemma candle_requests_products_map:
  "candle_requests (GetProducts # map (\<lambda>i. GetCandles (f i)) js) = map f js"
  by (simp add: candle_requests_map)

text \<open>When no issued request is refused, the loop has run through all its indices.\<close>

lemma multi_unrefused:
  assumes tick: "ticker_checker w self = Inr ()"
    and tok: "map_of GRANULARITIES (granularity self) = Some tok"
    and big: "300 < periods self"
    and ok: "\<forall>rq. GetCandles rq \<in> set (fst (retrieve_data w self))
                \<longrightarrow> status_code (candles_api w rq) \<in> set success"
  shows "candle_requests (fst (retrieve_data w self)) =
           map (chunk_request self (periods self) tok) [0 ..< nat (periods self div 300) + 1]"
  using tick tok big
proof (cases rule: multi_run)
  case complete
  then show ?thesis by (simp only: candle_requests_products_map)
next
  case (aborted k)
  have "GetCandles (chunk_request self (periods self) tok k) \<in> set (fst (retrieve_data w self))"
    by (simp add: aborted(4))
  with ok aborted(3) show ?thesis by blast
qed

lemma multi_requests_form:
  assumes tick: "ticker_checker w self = Inr ()"
    and tok: "map_of GRANULARITIES (granularity self) = Some tok"
    and big: "300 < periods self"
  shows "\<exists>k. k < nat (periods self div 300) + 1 \<and> candle_requests (fst (retrieve_data w self)) =
           map (chunk_request self (periods self) tok) [0 ..< Suc k]"
  using tick tok big
proof (cases rule: multi_run)
  case complete
  have "candle_requests (fst (retrieve_data w self)) =
           map (chunk_request self (periods self) tok) [0 ..< nat (periods self div 300) + 1]"
    using complete(2) by (simp only: candle_requests_products_map)
  then show ?thesis by (intro exI[of _ "nat (periods self div 300)"]) simp
next
  case (aborted k)
  have "candle_requests (fst (retrieve_data w self)) =
           map (chunk_request self (periods self) tok) [0 ..< Suc k]"
    using aborted(4) by (simp only: candle_requests_products_map)
  with aborted(1) show ?thesis by blast
qed

lemma single_requests_form:
  assumes tick: "ticker_checker w self = Inr ()"
    and tok: "map_of GRANULARITIES (granularity self) = Some tok"
    and small: "periods self \<le> 300"
  shows "fst (retrieve_data w self) = [GetProducts, GetCandles (single_request w self (periods self) tok)]"
  by (simp add: retrieve_single[OF tick tok small] Let_def)

subsection \<open>Lemmas about the frame operations\<close>

lemma sorting_permutation_mset:
  assumes "sorting_permutation keys p"
  shows "mset p = mset [0 ..< length keys]"
proof -
  from assms have len: "length p = length keys" and d: "distinct p"
    and sub: "set p \<subseteq> {0 ..< length keys}"
    by (auto simp add: sorting_permutation_def list_all_iff)
  have "card (set p) = length keys" using d len by (simp add: distinct_card)
  with sub have "set p = {0 ..< length keys}"
    by (intro card_subset_eq) simp_all
  then have "set p = set [0 ..< length keys]" by simp
  moreover have "distinct [0 ..< length keys]" by simp
  ultimately show ?thesis using d by (simp only: set_eq_iff_mset_eq_distinct)
qed

lemma mset_sort_index: "mset (sort_index sorter data) = mset data"
proof (cases "sorting_permutation (map r_time data) (sorter (map r_time data))")
  case True
  from sorting_permutation_mset[OF True]
  have "mset (sorter (map r_time data)) = mset [0 ..< length data]" by simp
  then have "mset (map (nth data) (sorter (map r_time data))) = mset (map (nth data) [0 ..< length data])"
    by (simp only: mset_map)
  with True show ?thesis by (simp add: sort_index_def Let_def map_nth)
next
  case False
  then show ?thesis by (simp add: sort_index_def Let_def)
qed

lemma set_sort_index: "set (sort_index sorter data) = set data"
  using mset_sort_index[of sorter data] by (metis set_mset_mset)

lemma sorted_sort_index: "sorted (map r_time (sort_index sorter data))"
proof (cases "sorting_permutation (map r_time data) (sorter (map r_time data))")
  case True
  then have srt: "sorted (map (nth (map r_time data)) (sorter (map r_time data)))"
    and inb: "\<forall>i \<in> set (sorter (map r_time data)). i < length data"
    by (auto simp add: sorting_permutation_def list_all_iff)
  have "map (nth (map r_time data)) (sorter (map r_time data))
      = map (\<lambda>i. r_time (data ! i)) (sorter (map r_time data))"
    using inb by (intro map_cong) simp_all
  with srt True show ?thesis by (simp add: sort_index_def Let_def comp_def)
next
  case False
  then show ?thesis by (simp add: sort_index_def Let_def)
qed

lemma set_drop_dups: "set (drop_dups seen xs) \<subseteq> set xs"
  by (induction xs arbitrary: seen) auto


lemma sorted_drop_dups:
  "sorted (map r_time xs) \<Longrightarrow> sorted (map r_time (drop_dups seen xs))"
proof (induction xs arbitrary: seen)
  case Nil
  then show ?case by simp
next
  case (Cons r rs)
  have "\<forall>x \<in> set (drop_dups (columns r # seen) rs). r_time r \<le> r_time x"
    using Cons.prems set_drop_dups[of "columns r # seen" rs] by auto
  with Cons show ?case by simp
qed

lemma assemble_in_window:
  "r \<in> set (assemble sorter start end' data) \<Longrightarrow>
     r \<in> set data \<and> start \<le> r_time r \<and> r_time r \<le> end'"
  using set_drop_dups[of "[]" "sort_index sorter (between start end' data)"]
  by (auto simp add: assemble_def drop_duplicates_def set_sort_index between_def)

lemma assemble_sorted: "sorted (map r_time (assemble sorter start end' data))"
  by (simp add: assemble_def drop_duplicates_def sorted_sort_index sorted_drop_dups)

lemma cast_row_time: "cast_row f r = Some r' \<Longrightarrow> r_time r' = r_time r"
  by (auto simp add: cast_row_def split: option.splits)

lemma astype_float_times: "astype_float f xs = Inr ys \<Longrightarrow> map r_time ys = map r_time xs"
  by (induction xs arbitrary: ys) (auto split: option.splits sum.splits dest: cast_row_time)

text \<open>What a successful retrieval returns, in both branches.\<close>

lemma retrieve_Inr:
  assumes "retrieve_data (w :: 'v world) self = (calls, Inr df)"
  shows "\<exists>data :: 'v row list. map r_time df = map r_time (assemble (argsort w) (start_date self) (end_date self) data)"
  using assms
  by (auto simp add: retrieve_data_def Let_def simp del: upt_Suc
      split: sum.splits if_splits option.splits prod.splits dest!: astype_float_times)

lemma drop_dups_nth:
  "drop_dups seen xs =
     map (nth xs)
       (filter (\<lambda>i. columns (xs ! i) \<notin> set seen \<and> (\<forall>j<i. columns (xs ! j) \<noteq> columns (xs ! i)))
          [0 ..< length xs])"
proof (induction xs arbitrary: seen)
  case Nil
  then show ?case by simp
next
  case (Cons r rs)
  have upt: "[0 ..< Suc (length rs)] = 0 # map Suc [0 ..< length rs]"
    by (simp add: upt_conv_Cons map_Suc_upt del: upt_Suc)
  have all_Suc: "(\<forall>j<Suc i. P j) \<longleftrightarrow> P 0 \<and> (\<forall>j<i. P (Suc j))" for i and P :: "nat \<Rightarrow> bool"
    by (rule All_less_Suc2)
  show ?case
  proof (cases "columns r \<in> set seen")
    case True
    have "filter (\<lambda>i. columns (rs ! i) \<notin> set seen \<and> columns r \<noteq> columns (rs ! i)
               \<and> (\<forall>j<i. columns (rs ! j) \<noteq> columns (rs ! i))) [0 ..< length rs]
        = filter (\<lambda>i. columns (rs ! i) \<notin> set seen
               \<and> (\<forall>j<i. columns (rs ! j) \<noteq> columns (rs ! i))) [0 ..< length rs]"
      using True by (intro filter_cong) auto
    with True show ?thesis
      by (simp add: upt filter_map comp_def all_Suc Cons.IH del: upt_Suc)
  next
    case False
    then show ?thesis
      by (simp add: upt filter_map comp_def all_Suc Cons.IH conj_ac eq_commute[of "columns r"] del: upt_Suc)
  qed
qed

lemma drop_dups_unseen: "r \<in> set (drop_dups seen xs) \<Longrightarrow> columns r \<notin> set seen"
proof (induction xs arbitrary: seen)
  case Nil
  then show ?case by simp
next
  case (Cons a xs)
  show ?case
  proof (cases "columns a \<in> set seen")
    case True
    with Cons.prems have "r \<in> set (drop_dups seen xs)" by simp
    then show ?thesis by (rule Cons.IH)
  next
    case False
    with Cons.prems have "r = a \<or> r \<in> set (drop_dups (columns a # seen) xs)" by simp
    then show ?thesis
    proof
      assume "r = a"
      with False show ?thesis by simp
    next
      assume "r \<in> set (drop_dups (columns a # seen) xs)"
      from Cons.IH[OF this] show ?thesis by simp
    qed
  qed
qed

lemma distinct_drop_dups: "distinct (map columns (drop_dups seen xs))"
proof (induction xs arbitrary: seen)
  case Nil
  then show ?case by simp
next
  case (Cons a xs)
  have "columns a \<notin> columns ` set (drop_dups (columns a # seen) xs)"
  proof
    assume "columns a \<in> columns ` set (drop_dups (columns a # seen) xs)"
    then obtain r where r: "r \<in> set (drop_dups (columns a # seen) xs)" "columns r = columns a"
      by force
    from drop_dups_unseen[OF r(1)] r(2) show False by simp
  qed
  with Cons.IH show ?case by simp
qed

subsection \<open>Lemmas about the outcome of a retrieval\<close>

lemma issued_valid:
  assumes "GetCandles rq \<in> set (fst (retrieve_data w self))"
  shows "ticker_checker w self = Inr ()
      \<and> (\<exists>tok. map_of GRANULARITIES (granularity self) = Some tok)
      \<and> 0 \<le> periods self"
proof (cases "ticker_checker w self")
  case (Inl e)
  with assms show ?thesis by (simp add: retrieve_data_def)
next
  case (Inr u)
  show ?thesis
  proof (cases "map_of GRANULARITIES (granularity self)")
    case None
    with assms Inr show ?thesis
      by (simp add: retrieve_data_def Let_def split: if_splits)
  next
    case (Some tok)
    have "0 < granularity self" using granularity_pos[OF Some] by simp
    then have "0 \<le> periods self" by (simp add: periods_def Let_def pos_imp_zdiv_nonneg_iff)
    with Inr Some show ?thesis by simp
  qed
qed

lemma chunk_request_inj:
  assumes "granularity self \<noteq> 0"
    and "chunk_request self rv tok i = chunk_request self rv tok j"
  shows "i = j"
proof -
  have "rq_start (chunk_request self rv tok i) = rq_start (chunk_request self rv tok j)"
    using assms(2) by simp
  then have "int i * (300 * granularity self) = int j * (300 * granularity self)"
    by (simp add: chunk_request_fields)
  with assms(1) show ?thesis by simp
qed

lemma count_list_upt: "count_list [0 ..< n] k = (if k < n then 1 else 0)"
  by (induction n) auto

lemma in_products_map:
  "GetCandles rq \<in> set (GetProducts # map (\<lambda>i. GetCandles (f i)) [0 ..< n]) \<Longrightarrow> \<exists>i<n. rq = f i"
  by auto

lemma Inr_valid:
  assumes "snd (retrieve_data w self) = Inr df"
  shows "ticker_checker w self = Inr ()
      \<and> (\<exists>tok. map_of GRANULARITIES (granularity self) = Some tok)"
proof (cases "ticker_checker w self")
  case (Inl e)
  with assms show ?thesis by (simp add: retrieve_data_def)
next
  case (Inr u)
  show ?thesis
  proof (cases "map_of GRANULARITIES (granularity self)")
    case None
    with assms Inr show ?thesis
      by (simp add: retrieve_data_def Let_def split: if_splits)
  next
    case (Some tok)
    with Inr show ?thesis by simp
  qed
qed

lemma retrieve_Inr_single:
  assumes "periods self \<le> 300" and "retrieve_data w self = (calls, Inr df)"
  shows "\<exists>rq. candle_requests calls = [rq] \<and> candles (candles_api w rq) \<noteq> []
      \<and> df = assemble (argsort w) (start_date self) (end_date self) (candles (candles_api w rq))"
proof -
  from Inr_valid[of w self df] assms(2) obtain tok where
    tick: "ticker_checker w self = Inr ()" and
    tok: "map_of GRANULARITIES (granularity self) = Some tok" by auto
  from assms(2) show ?thesis
    unfolding retrieve_single[OF tick tok assms(1)]
    by (auto simp add: Let_def split: if_splits)
qed

lemma retrieve_Inr_multi:
  assumes "300 < periods self" and "retrieve_data w self = (calls, Inr df)"
  shows "concat (map (\<lambda>rq. candles (candles_api w rq)) (candle_requests calls)) \<noteq> []
      \<and> astype_float (to_float w)
          (assemble (argsort w) (start_date self) (end_date self)
             (concat (map (\<lambda>rq. candles (candles_api w rq)) (candle_requests calls)))) = Inr df"
proof -
  from Inr_valid[of w self df] assms(2) obtain tok where
    tick: "ticker_checker w self = Inr ()" and
    tok: "map_of GRANULARITIES (granularity self) = Some tok" by auto
  from tick tok assms(1) show ?thesis
  proof (cases rule: multi_run)
    case complete
    have calls: "candle_requests calls =
        map (chunk_request self (periods self) tok) [0 ..< nat (periods self div 300) + 1]"
      using complete(2) assms(2) by (simp only: fst_conv candle_requests_products_map)
    have data: "concat (map (\<lambda>rq. candles (candles_api w rq)) (candle_requests calls))
        = foldl append_dataset []
            (map (\<lambda>i. candles (candles_api w (chunk_request self (periods self) tok i)))
               [0 ..< nat (periods self div 300) + 1])"
      by (simp only: calls foldl_append_dataset map_map comp_def append_Nil)
    from complete(3) assms(2) show ?thesis
      unfolding data by (simp add: Let_def split: if_splits)
  next
    case (aborted k)
    with assms(2) show ?thesis by simp
  qed
qed

lemma cast_row_columns:
  "cast_row f r = Some r' \<Longrightarrow> map f (columns r) = map Some (columns r')"
  by (auto simp add: cast_row_def columns_def split: option.splits)

lemma astype_float_nth:
  "astype_float f xs = Inr ys \<Longrightarrow>
     length ys = length xs \<and> (\<forall>i<length xs. cast_row f (xs ! i) = Some (ys ! i))"
proof (induction xs arbitrary: ys)
  case Nil
  then show ?case by simp
next
  case (Cons r rs)
  then obtain r' rs' where p: "cast_row f r = Some r'" "astype_float f rs = Inr rs'" "ys = r' # rs'"
    by (auto split: option.splits sum.splits)
  from Cons.IH[OF p(2)] p(1) p(3) show ?case
    by (auto simp add: nth_Cons split: nat.splits)
qed

text \<open>The limit of every chunk request is the whole request volume.\<close>

lemma chunk_limits:
  assumes "ticker_checker w self = Inr ()"
    and "map_of GRANULARITIES (granularity self) = Some tok"
    and "300 < periods self"
    and "rq \<in> set (candle_requests (fst (retrieve_data w self)))"
  shows "rq_limit rq = periods self"
proof -
  from multi_requests_form[OF assms(1-3)] obtain k where
    "candle_requests (fst (retrieve_data w self)) =
       map (chunk_request self (periods self) tok) [0 ..< Suc k]" by blast
  with assms(4) show ?thesis
    by (auto simp add: chunk_request_fields simp del: upt_Suc)
qed

lemma row_eqI:
  fixes a b :: "'v row"
  assumes "r_time a = r_time b" and "columns a = columns b"
  shows "a = b"
  using assms by (intro row.equality) (simp_all add: columns_def)

text \<open>
  Of a frame in ascending order of time, \<open>drop_dups\<close> keeps the rows that have the least
  time among the rows with their five values: which rows stay does not depend on the
  order of rows of one timestamp.
\<close>

lemma set_drop_dups_sorted:
  assumes srt: "sorted (map r_time S)"
  shows "set (drop_dups [] S) =
           {r \<in> set S. \<forall>r' \<in> set S. columns r' = columns r \<longrightarrow> r_time r \<le> r_time r'}"
proof (intro set_eqI iffI)
  fix r
  assume "r \<in> set (drop_dups [] S)"
  then obtain i where i: "i < length S" "r = S ! i" "\<forall>j<i. columns (S ! j) \<noteq> columns (S ! i)"
    by (auto simp add: drop_dups_nth)
  have "r_time r \<le> r_time r'" if r': "r' \<in> set S" "columns r' = columns r" for r'
  proof -
    from r'(1) obtain k where k: "k < length S" "r' = S ! k" by (auto simp add: in_set_conv_nth)
    have "\<not> k < i" using i(3) r'(2) k(2) i(2) by auto
    then have "i \<le> k" by simp
    then have "map r_time S ! i \<le> map r_time S ! k"
      using srt k(1) by (intro sorted_nth_mono) simp_all
    then show ?thesis using i k by simp
  qed
  with i show "r \<in> {r \<in> set S. \<forall>r' \<in> set S. columns r' = columns r \<longrightarrow> r_time r \<le> r_time r'}"
    by simp
next
  fix r
  assume "r \<in> {r \<in> set S. \<forall>r' \<in> set S. columns r' = columns r \<longrightarrow> r_time r \<le> r_time r'}"
  then have r: "r \<in> set S" and least: "\<forall>r' \<in> set S. columns r' = columns r \<longrightarrow> r_time r \<le> r_time r'"
    by simp_all
  from r obtain k where k: "k < length S" "r = S ! k" by (auto simp add: in_set_conv_nth)
  define i where "i = (LEAST j. j < length S \<and> columns (S ! j) = columns r)"
  have ex: "k < length S \<and> columns (S ! k) = columns r" using k by simp
  have i: "i < length S \<and> columns (S ! i) = columns r"
    unfolding i_def by (rule LeastI[of _ k]) (rule ex)
  have ik: "i \<le> k" unfolding i_def by (rule Least_le) (rule ex)
  have first: "\<forall>j<i. columns (S ! j) \<noteq> columns (S ! i)"
  proof (intro allI impI)
    fix j assume "j < i"
    then have "\<not> (j < length S \<and> columns (S ! j) = columns r)"
      unfolding i_def using not_less_Least by blast
    with \<open>j < i\<close> i show "columns (S ! j) \<noteq> columns (S ! i)" by simp
  qed
  have "map r_time S ! i \<le> map r_time S ! k"
    using srt k(1) ik by (intro sorted_nth_mono) simp_all
  then have "r_time (S ! i) \<le> r_time r" using i k by simp
  moreover have "r_time r \<le> r_time (S ! i)" using least i by simp
  ultimately have "S ! i = r" using i by (intro row_eqI) simp_all
  with i first show "r \<in> set (drop_dups [] S)"
    by (auto simp add: drop_dups_nth intro!: image_eqI[of _ _ i])
qed

lemma distinct_drop_dups_rows: "distinct (drop_dups seen xs)"
  using distinct_drop_dups[of seen xs] by (simp add: distinct_map)


lemma between_filter:
  "between start end' (foldl append_dataset [] chunks)
     = filter (\<lambda>r. start \<le> r_time r \<and> r_time r \<le> end') (concat chunks)"
  by (simp add: between_def foldl_append_dataset)

text \<open>Two ascending lists with the same elements, counted, are the same list.\<close>

lemma sorted_mset_unique:
  fixes xs ys :: "int list"
  assumes "sorted xs" "sorted ys" "mset xs = mset ys"
  shows "xs = ys"
  using assms by (metis properties_for_sort)

section \<open>The claims\<close>

text \<open>
  C1, as the code has it. For a listed ticker, a granularity of the table and a request
  volume above 300, when no issued chunk request is refused, \<open>retrieve_data\<close> issues
  exactly \<open>floor(request_volume / 300) + 1\<close> chunk requests; request \<open>i\<close> starts
  \<open>i * 300 * granularity\<close> seconds after the start date and ends \<open>300 * granularity\<close>
  seconds later, so the sub-windows ascend, each one (the last too) spans exactly
  \<open>300 * granularity\<close> seconds and begins where the one before ends. The last sub-window
  is not truncated: its end lies strictly after the end date.
\<close>

theorem C1_chunk_windows:
  assumes tick: "ticker_checker w self = Inr ()"
    and gran: "granularity self \<in> fst ` set GRANULARITIES"
    and big: "300 < periods self"
    and ok: "\<forall>rq. GetCandles rq \<in> set (fst (retrieve_data w self))
                \<longrightarrow> status_code (candles_api w rq) \<in> set success"
  shows "length (candle_requests (fst (retrieve_data w self))) = nat (periods self div 300) + 1
    \<and> (\<forall>i < length (candle_requests (fst (retrieve_data w self))).
          rq_start (candle_requests (fst (retrieve_data w self)) ! i)
            = Text (start_date self + int i * (300 * granularity self))
        \<and> rq_end (candle_requests (fst (retrieve_data w self)) ! i)
            = Text (start_date self + int i * (300 * granularity self) + 300 * granularity self))
    \<and> end_date self < instant (rq_end (last (candle_requests (fst (retrieve_data w self)))))"
proof -
  from granularity_token[OF gran] obtain tok
    where tok: "map_of GRANULARITIES (granularity self) = Some tok" by blast
  define n where "n = nat (periods self div 300)"
  have reqs: "candle_requests (fst (retrieve_data w self)) =
           map (chunk_request self (periods self) tok) [0 ..< n + 1]"
    unfolding n_def by (rule multi_unrefused[OF tick tok big ok])
  have g: "0 < granularity self" using granularity_pos[OF tok] by simp
  have len: "length (candle_requests (fst (retrieve_data w self))) = n + 1"
    by (simp add: reqs)
  have nth: "candle_requests (fst (retrieve_data w self)) ! i = chunk_request self (periods self) tok i"
    if "i < n + 1" for i
    unfolding reqs using that by (simp only: nth_map length_upt nth_upt) simp
  have "last (candle_requests (fst (retrieve_data w self))) = chunk_request self (periods self) tok n"
    by (simp add: reqs)
  then have lst: "instant (rq_end (last (candle_requests (fst (retrieve_data w self)))))
      = start_date self + (int n + 1) * (300 * granularity self)"
    by (simp add: chunk_request_fields algebra_simps)
  have "\<bar>end_date self - start_date self\<bar> < (int n + 1) * (300 * granularity self)"
    unfolding n_def
    by (rule overshoot[OF g periods_pos[OF g refl]]) (use big in simp)
  then have over: "end_date self < start_date self + (int n + 1) * (300 * granularity self)"
    by linarith
  show ?thesis
    unfolding n_def[symmetric]
    using len nth over lst by (simp add: chunk_request_fields)
qed

theorem C1_chunk_windows_witness:
  "candle_requests (fst (retrieve_data (example_world steady_api) (btc 60 0 18060)))
     = [\<lparr>rq_ticker = ''BTC-USD'', rq_start = Text 0, rq_end = Text 18000,
          rq_granularity = ''ONE_MINUTE'', rq_limit = 301\<rparr>,
        \<lparr>rq_ticker = ''BTC-USD'', rq_start = Text 18000, rq_end = Text 36000,
          rq_granularity = ''ONE_MINUTE'', rq_limit = 301\<rparr>]
   \<and> end_date (btc 60 0 18060) < 36000"
proof -
  have tick: "ticker_checker (example_world steady_api) (btc 60 0 18060) = Inr ()"
    by (simp add: example_defs)
  have gran: "granularity (btc 60 0 18060) \<in> fst ` set GRANULARITIES"
    by (simp add: example_defs)
  have big: "300 < periods (btc 60 0 18060)"
    by (simp add: example_defs)
  have ok: "\<forall>rq. GetCandles rq \<in> set (fst (retrieve_data (example_world steady_api) (btc 60 0 18060)))
      \<longrightarrow> status_code (candles_api (example_world steady_api) rq) \<in> set success"
    by (simp add: example_world_def steady_api_def success_def)
  have run: "candle_requests (fst (retrieve_data (example_world steady_api) (btc 60 0 18060)))
     = [\<lparr>rq_ticker = ''BTC-USD'', rq_start = Text 0, rq_end = Text 18000,
          rq_granularity = ''ONE_MINUTE'', rq_limit = 301\<rparr>,
        \<lparr>rq_ticker = ''BTC-USD'', rq_start = Text 18000, rq_end = Text 36000,
          rq_granularity = ''ONE_MINUTE'', rq_limit = 301\<rparr>]"
    by (simp add: example_defs steady_api_def upt_rec[of 0] upt_rec[of 1])
  show ?thesis
    using C1_chunk_windows[OF tick gran big ok] run by (simp add: btc_def)
qed

theorem C1_last_window_counterexample:
  "\<not> instant (rq_end (last (candle_requests
          (fst (retrieve_data (example_world steady_api) (btc 60 0 18060))))))
       \<le> end_date (btc 60 0 18060)"
  by (simp add: example_defs steady_api_def upt_rec[of 0] upt_rec[of 1])

text \<open>
  C2, as the code has it. For a listed ticker and a granularity of the table, the request
  volume is the floor (not the ceiling) of \<open>|end - start| / granularity\<close>; exactly one
  candle request, spanning the whole window, is issued if and only if that volume is at
  most 300; above 300 every issued request covers less than the window.
\<close>

theorem C2_single_request_iff:
  assumes tick: "ticker_checker w self = Inr ()"
    and gran: "granularity self \<in> fst ` set GRANULARITIES"
  shows "periods self
           = \<lfloor>real_of_int \<bar>end_date self - start_date self\<bar> / real_of_int (granularity self)\<rfloor>
    \<and> ((\<exists>rq. candle_requests (fst (retrieve_data w self)) = [rq]
             \<and> rq_start rq = Unix (timestamp w (start_date self))
             \<and> rq_end rq = Unix (timestamp w (end_date self)))
         \<longleftrightarrow> periods self \<le> 300)
    \<and> (300 < periods self \<longrightarrow>
          (\<forall>rq \<in> set (candle_requests (fst (retrieve_data w self))).
             instant (rq_end rq) - instant (rq_start rq) < \<bar>end_date self - start_date self\<bar>))"
proof -
  from granularity_token[OF gran] obtain tok
    where tok: "map_of GRANULARITIES (granularity self) = Some tok" by blast
  have g: "0 < granularity self" using granularity_pos[OF tok] by simp
  have p: "periods self = \<bar>end_date self - start_date self\<bar> div granularity self"
    by (rule periods_pos[OF g refl])
  have floor: "periods self
           = \<lfloor>real_of_int \<bar>end_date self - start_date self\<bar> / real_of_int (granularity self)\<rfloor>"
    by (simp only: p floor_divide_of_int_eq)
  have small: "\<exists>rq. candle_requests (fst (retrieve_data w self)) = [rq]
             \<and> rq_start rq = Unix (timestamp w (start_date self))
             \<and> rq_end rq = Unix (timestamp w (end_date self))"
    if "periods self \<le> 300"
    by (simp add: single_requests_form[OF tick tok that] single_request_def)
  have big: "\<forall>rq \<in> set (candle_requests (fst (retrieve_data w self))).
        (\<exists>d. rq_start rq = Text d)
        \<and> instant (rq_end rq) - instant (rq_start rq) < \<bar>end_date self - start_date self\<bar>"
    if b: "300 < periods self"
  proof -
    from multi_requests_form[OF tick tok b] obtain k where
      k: "candle_requests (fst (retrieve_data w self)) =
           map (chunk_request self (periods self) tok) [0 ..< Suc k]" by blast
    have "periods self * granularity self \<le> \<bar>end_date self - start_date self\<bar>"
    proof -
      have "\<bar>end_date self - start_date self\<bar>
          = \<bar>end_date self - start_date self\<bar> div granularity self * granularity self
            + \<bar>end_date self - start_date self\<bar> mod granularity self"
        by simp
      moreover have "0 \<le> \<bar>end_date self - start_date self\<bar> mod granularity self"
        using g by simp
      ultimately show ?thesis unfolding p by linarith
    qed
    moreover have "301 * granularity self \<le> periods self * granularity self"
      using b g by (intro mult_right_mono) simp_all
    ultimately have "300 * granularity self < \<bar>end_date self - start_date self\<bar>"
      using g by linarith
    then show ?thesis
      unfolding k by (auto simp add: chunk_request_fields simp del: upt_Suc)
  qed
  have iff: "(\<exists>rq. candle_requests (fst (retrieve_data w self)) = [rq]
             \<and> rq_start rq = Unix (timestamp w (start_date self))
             \<and> rq_end rq = Unix (timestamp w (end_date self)))
         \<longleftrightarrow> periods self \<le> 300"
  proof
    assume "\<exists>rq. candle_requests (fst (retrieve_data w self)) = [rq]
             \<and> rq_start rq = Unix (timestamp w (start_date self))
             \<and> rq_end rq = Unix (timestamp w (end_date self))"
    then obtain rq where rq: "candle_requests (fst (retrieve_data w self)) = [rq]"
       "rq_start rq = Unix (timestamp w (start_date self))" by blast
    show "periods self \<le> 300"
    proof (rule ccontr)
      assume "\<not> periods self \<le> 300"
      then have "300 < periods self" by simp
      from big[OF this] rq show False by simp
    qed
  qed (rule small)
  from floor iff big show ?thesis by blast
qed

theorem C2_single_request_iff_witness:
  "ticker_checker (example_world steady_api) (btc 300 0 90060) = Inr ()
   \<and> granularity (btc 300 0 90060) \<in> fst ` set GRANULARITIES
   \<and> periods (btc 300 0 90060) = 300
   \<and> (\<exists>rq. candle_requests (fst (retrieve_data (example_world steady_api) (btc 300 0 90060))) = [rq]
         \<and> rq_start rq = Unix 0 \<and> rq_end rq = Unix 90060)"
proof -
  have tick: "ticker_checker (example_world steady_api) (btc 300 0 90060) = Inr ()"
    by (simp add: example_defs)
  have gran: "granularity (btc 300 0 90060) \<in> fst ` set GRANULARITIES"
    by (simp add: example_defs)
  have p: "periods (btc 300 0 90060) = 300"
    by (simp add: example_defs)
  show ?thesis
    using C2_single_request_iff[OF tick gran] tick gran p
    by (simp add: example_world_def btc_def)
qed

theorem C2_ceiling_counterexample:
  "periods (btc 300 0 90060) \<noteq> expected_count_spec 0 90060 300
   \<and> length (candle_requests (fst (retrieve_data (example_world steady_api) (btc 300 0 90060)))) = 1
   \<and> \<not> expected_count_spec 0 90060 300 \<le> 300"
  by (simp add: example_defs steady_api_def expected_count_spec_def)

text \<open>
  C3, as the code has it. Every record of a returned frame has its timestamp within
  \<open>[start_date, end_date]\<close>, bounds included, and the timestamps never decrease.
\<close>

theorem C3_series_bounded_and_ordered:
  assumes "retrieve_data (w :: 'v world) self = (calls, Inr df)"
  shows "(\<forall>r \<in> set df. start_date self \<le> r_time r \<and> r_time r \<le> end_date self)
     \<and> sorted (map r_time df)"
proof -
  from retrieve_Inr[OF assms] obtain data :: "'v row list" where
    t: "map r_time df = map r_time (assemble (argsort w) (start_date self) (end_date self) data)"
    by blast
  have "\<forall>t \<in> set (map r_time (assemble (argsort w) (start_date self) (end_date self) data)).
          start_date self \<le> t \<and> t \<le> end_date self"
    using assemble_in_window by fastforce
  then have "\<forall>t \<in> set (map r_time df). start_date self \<le> t \<and> t \<le> end_date self"
    by (simp only: t)
  moreover have "sorted (map r_time df)"
    by (simp only: t assemble_sorted)
  ultimately show ?thesis by simp
qed

theorem C3_series_bounded_and_ordered_witness:
  "retrieve_data (example_world twin_api) (btc 3600 0 36000)
     = ([GetProducts,
         GetCandles \<lparr>rq_ticker = ''BTC-USD'', rq_start = Unix 0, rq_end = Unix 36000,
                     rq_granularity = ''ONE_HOUR'', rq_limit = 10\<rparr>],
        Inr [flat_row 3600 7, flat_row 3600 8])
   \<and> start_date (btc 3600 0 36000) \<le> r_time (flat_row 3600 7)
   \<and> r_time (flat_row 3600 8) \<le> end_date (btc 3600 0 36000)
   \<and> sorted (map r_time [flat_row 3600 7, flat_row 3600 8 :: cell row])"
proof -
  have run: "retrieve_data (example_world twin_api) (btc 3600 0 36000)
     = ([GetProducts,
         GetCandles \<lparr>rq_ticker = ''BTC-USD'', rq_start = Unix 0, rq_end = Unix 36000,
                     rq_granularity = ''ONE_HOUR'', rq_limit = 10\<rparr>],
        Inr [flat_row 3600 7, flat_row 3600 8])"
    by (simp add: example_defs twin_api_def)
  show ?thesis
    using C3_series_bounded_and_ordered[OF run] run by (simp add: btc_def)
qed

theorem C3_repeated_timestamp_counterexample:
  "snd (retrieve_data (example_world twin_api) (btc 3600 0 36000))
     = Inr [flat_row 3600 7, flat_row 3600 8]
   \<and> \<not> distinct (map r_time (projr (snd (retrieve_data (example_world twin_api) (btc 3600 0 36000)))))
   \<and> \<not> sorted_wrt (<) (map r_time (projr (snd (retrieve_data (example_world twin_api) (btc 3600 0 36000)))))"
  by (simp add: example_defs twin_api_def)




text \<open>
  C5. Whenever a candle request that \<open>retrieve_data\<close> has issued is answered with a
  status outside 200 to 204, the retrieval ends with an error and no frame:
  \<open>HTTPError\<close> (the specification's RequestError) for 400, 401 and 404,
  \<open>ConnectionError\<close> for 403, 500 and 501, \<open>RequestException\<close> (the specification's
  UnknownError) for any other status. That request is the last call of the log and occurs
  in it once: nothing is retried, nothing is issued after it, and what earlier chunks
  delivered is not returned.
\<close>

theorem C5_refused_chunk_aborts:
  assumes issued: "GetCandles rq \<in> set (fst (retrieve_data w self))"
    and refused: "status_code (candles_api w rq) \<notin> set [200, 201, 202, 203, 204]"
  shows "snd (retrieve_data w self) =
           Inl (if status_code (candles_api w rq) \<in> {400, 401, 404} then HTTPError
                else if status_code (candles_api w rq) \<in> {403, 500, 501} then ConnectionError
                else RequestException)
       \<and> last (fst (retrieve_data w self)) = GetCandles rq
       \<and> count_list (fst (retrieve_data w self)) (GetCandles rq) = 1"
proof -
  from issued_valid[OF issued] obtain tok where
    tick: "ticker_checker w self = Inr ()" and
    tok: "map_of GRANULARITIES (granularity self) = Some tok" by blast
  have g: "granularity self \<noteq> 0" using granularity_pos[OF tok] by simp
  have bad: "status_code (candles_api w rq) \<notin> set success"
    using refused by (simp add: success_def)
  have err: "status_error (status_code (candles_api w rq)) =
      (if status_code (candles_api w rq) \<in> {400, 401, 404} then HTTPError
       else if status_code (candles_api w rq) \<in> {403, 500, 501} then ConnectionError
       else RequestException)"
    by (simp add: status_error_def)
  show ?thesis
  proof (cases "periods self \<le> 300")
    case True
    note r = retrieve_single[OF tick tok True]
    have rq: "rq = single_request w self (periods self) tok"
      using issued by (simp add: r Let_def split: if_splits)
    show ?thesis
      using bad unfolding err[symmetric] by (simp add: r Let_def rq)
  next
    case False
    then have big: "300 < periods self" by simp
    from tick tok big show ?thesis
    proof (cases rule: multi_run)
      case complete
      from issued[unfolded complete(2)] obtain i where "i < nat (periods self div 300) + 1"
        "rq = chunk_request self (periods self) tok i"
        using in_products_map by blast
      with complete(1) bad show ?thesis by blast
    next
      case (aborted k)
      from issued[unfolded aborted(4)] obtain i where
        i: "i < Suc k" "rq = chunk_request self (periods self) tok i"
        using in_products_map by blast
      have "i = k"
      proof (rule ccontr)
        assume "i \<noteq> k"
        with i(1) have "i < k" by simp
        with aborted(2) i(2) bad show False by blast
      qed
      with i(2) have rq: "rq = chunk_request self (periods self) tok k" by simp
      have res: "snd (retrieve_data w self) = Inl (status_error (status_code (candles_api w rq)))"
        by (simp add: aborted(5) rq)
      have lst: "last (fst (retrieve_data w self)) = GetCandles rq"
        by (simp add: aborted(4) rq)
      have inj: "inj_on (\<lambda>i. GetCandles (chunk_request self (periods self) tok i)) (set [0 ..< Suc k])"
        by (rule inj_onI) (use chunk_request_inj[OF g] in auto)
      have "count_list (map (\<lambda>i. GetCandles (chunk_request self (periods self) tok i)) [0 ..< Suc k])
              (GetCandles (chunk_request self (periods self) tok k))
            = count_list [0 ..< Suc k] k"
        by (rule count_list_inj_map[OF inj]) simp
      also have "\<dots> = 1" by (simp only: count_list_upt) simp
      finally have cnt: "count_list (fst (retrieve_data w self)) (GetCandles rq) = 1"
        by (simp add: aborted(4) rq del: upt_Suc)
      from res lst cnt show ?thesis by (simp only: err)
    qed
  qed
qed

theorem C5_refused_chunk_aborts_witness:
  "retrieve_data (example_world second_404_api) (btc 60 0 18060)
     = ([GetProducts,
         GetCandles \<lparr>rq_ticker = ''BTC-USD'', rq_start = Text 0, rq_end = Text 18000,
                     rq_granularity = ''ONE_MINUTE'', rq_limit = 301\<rparr>,
         GetCandles \<lparr>rq_ticker = ''BTC-USD'', rq_start = Text 18000, rq_end = Text 36000,
                     rq_granularity = ''ONE_MINUTE'', rq_limit = 301\<rparr>],
        Inl HTTPError)
   \<and> status_code (candles_api (example_world second_404_api)
         \<lparr>rq_ticker = ''BTC-USD'', rq_start = Text 18000, rq_end = Text 36000,
          rq_granularity = ''ONE_MINUTE'', rq_limit = 301\<rparr>) = 404"
proof -
  have run: "retrieve_data (example_world second_404_api) (btc 60 0 18060)
     = ([GetProducts,
         GetCandles \<lparr>rq_ticker = ''BTC-USD'', rq_start = Text 0, rq_end = Text 18000,
                     rq_granularity = ''ONE_MINUTE'', rq_limit = 301\<rparr>,
         GetCandles \<lparr>rq_ticker = ''BTC-USD'', rq_start = Text 18000, rq_end = Text 36000,
                     rq_granularity = ''ONE_MINUTE'', rq_limit = 301\<rparr>],
        Inl HTTPError)"
    by (simp add: example_defs second_404_api_def steady_api_def upt_rec[of 0] upt_rec[of 1])
  have st: "status_code (candles_api (example_world second_404_api)
         \<lparr>rq_ticker = ''BTC-USD'', rq_start = Text 18000, rq_end = Text 36000,
          rq_granularity = ''ONE_MINUTE'', rq_limit = 301\<rparr>) = 404"
    by (simp add: example_world_def second_404_api_def)
  have issued: "GetCandles \<lparr>rq_ticker = ''BTC-USD'', rq_start = Text 18000, rq_end = Text 36000,
          rq_granularity = ''ONE_MINUTE'', rq_limit = 301\<rparr>
        \<in> set (fst (retrieve_data (example_world second_404_api) (btc 60 0 18060)))"
    by (simp add: run)
  have refused: "status_code (candles_api (example_world second_404_api)
         \<lparr>rq_ticker = ''BTC-USD'', rq_start = Text 18000, rq_end = Text 36000,
          rq_granularity = ''ONE_MINUTE'', rq_limit = 301\<rparr>) \<notin> set [200, 201, 202, 203, 204]"
    by (simp add: st)
  show ?thesis
    using C5_refused_chunk_aborts[OF issued refused] run st by simp
qed

text \<open>
  C6, at an input where the code departs from it. A retrieval of 301 one-minute candles
  makes two chunk requests; both succeed with an empty candle array. The loop passes both
  without an error, and the retrieval then raises \<open>ValueError\<close> where the six column names
  are assigned to a frame without columns, instead of returning a Series without records.
\<close>

theorem C6_all_chunks_empty_raises:
  "retrieve_data (example_world empty_api) (btc 60 0 18060)
     = ([GetProducts,
         GetCandles \<lparr>rq_ticker = ''BTC-USD'', rq_start = Text 0, rq_end = Text 18000,
                     rq_granularity = ''ONE_MINUTE'', rq_limit = 301\<rparr>,
         GetCandles \<lparr>rq_ticker = ''BTC-USD'', rq_start = Text 18000, rq_end = Text 36000,
                     rq_granularity = ''ONE_MINUTE'', rq_limit = 301\<rparr>],
        Inl ValueError)"
  by (simp add: example_defs empty_api_def upt_rec[of 0] upt_rec[of 1])




text \<open>
  C8, at an input where the code departs from it. A retrieval of 301 one-minute candles
  makes two chunk requests, and each carries the limit 301, the whole request volume: more
  than the 300 candles of its sub-window, and more than 300.
\<close>

theorem C8_chunk_limit_above_300:
  "map rq_limit (candle_requests (fst (retrieve_data (example_world steady_api) (btc 60 0 18060))))
     = [301, 301]"
  by (simp add: example_defs steady_api_def upt_rec[of 0] upt_rec[of 1])

text \<open>
  C9, as the code has it. Assembly is a function of its inputs. Assembling the chunk
  outputs twice over (each record appearing twice) gives exactly the records that
  assembling them once gives, each of them once, with the same sequence of timestamps: the
  two frames can differ only in the order of records that share a timestamp.
\<close>

theorem C9_assemble_twice_same_records:
  "mset (assemble sorter start end' (foldl append_dataset [] (chunks @ chunks)))
     = mset (assemble sorter start end' (foldl append_dataset [] chunks))
   \<and> distinct (assemble sorter start end' (foldl append_dataset [] chunks))
   \<and> map r_time (assemble sorter start end' (foldl append_dataset [] (chunks @ chunks)))
     = map r_time (assemble sorter start end' (foldl append_dataset [] chunks))"
proof -
  define S1 where "S1 = sort_index sorter (between start end' (foldl append_dataset [] chunks))"
  define S2 where
    "S2 = sort_index sorter (between start end' (foldl append_dataset [] (chunks @ chunks)))"
  have once: "assemble sorter start end' (foldl append_dataset [] chunks) = drop_dups [] S1"
    by (simp add: assemble_def drop_duplicates_def S1_def)
  have twice: "assemble sorter start end' (foldl append_dataset [] (chunks @ chunks))
      = drop_dups [] S2"
    by (simp add: assemble_def drop_duplicates_def S2_def)
  have sets: "set S2 = set S1"
    unfolding S1_def S2_def set_sort_index between_filter by auto
  have srt: "sorted (map r_time S1)" "sorted (map r_time S2)"
    by (simp_all add: S1_def S2_def sorted_sort_index)
  have "set (drop_dups [] S2) = set (drop_dups [] S1)"
    by (simp only: set_drop_dups_sorted[OF srt(1)] set_drop_dups_sorted[OF srt(2)] sets)
  moreover have d: "distinct (drop_dups [] S1)" "distinct (drop_dups [] S2)"
    by (rule distinct_drop_dups_rows)+
  ultimately have m: "mset (drop_dups [] S2) = mset (drop_dups [] S1)"
    by (simp only: set_eq_iff_mset_eq_distinct)
  then have "mset (map r_time (drop_dups [] S2)) = mset (map r_time (drop_dups [] S1))"
    by (metis mset_map)
  moreover have "sorted (map r_time (drop_dups [] S1))" "sorted (map r_time (drop_dups [] S2))"
    using srt by (simp_all add: sorted_drop_dups)
  ultimately have "map r_time (drop_dups [] S2) = map r_time (drop_dups [] S1)"
    by (intro sorted_mset_unique) simp_all
  with m d(1) show ?thesis
    unfolding once twice by simp
qed

theorem C9_assemble_twice_same_records_witness:
  "assemble stable_argsort 0 10 (foldl append_dataset []
       ([[flat_row 6 1, flat_row 5 2], [flat_row 5 1]] @ [[flat_row 6 1, flat_row 5 2], [flat_row 5 1]]))
     = [flat_row 5 2, flat_row 5 1]
   \<and> mset (assemble stable_argsort 0 10 (foldl append_dataset []
             [[flat_row 6 1, flat_row 5 2], [flat_row 5 1]]))
     = mset [flat_row 5 2, flat_row 5 1]"
proof -
  have "assemble stable_argsort 0 10 (foldl append_dataset []
       ([[flat_row 6 1, flat_row 5 2], [flat_row 5 1]] @ [[flat_row 6 1, flat_row 5 2], [flat_row 5 1]]))
     = [flat_row 5 2, flat_row 5 1 :: cell row]"
    by (simp add: example_defs)
  then show ?thesis
    using C9_assemble_twice_same_records[of stable_argsort 0 10
        "[[flat_row 6 1, flat_row 5 2], [flat_row 5 1]]"]
    by simp
qed

theorem C9_timestamps_not_collapsed_counterexample:
  "\<not> distinct (map r_time
        (assemble stable_argsort 0 10 (foldl append_dataset []
           ([[flat_row 5 1, flat_row 5 2]] @ [[flat_row 5 1, flat_row 5 2]]))))"
  by (simp add: example_defs)

text \<open>
  C10. Take two successful retrievals over the same window in the same world, one with a
  request volume of at most 300 and one above 300, whose requests fetched the same rows
  (those of the chunks concatenated in request order). The single-chunk result consists of
  rows as they were received. The multi-chunk result has the same length and the same
  timestamps, and each of its five values is the float cast of the value at that place in
  the single-chunk result: the two results agree only where the cast changes nothing.
\<close>

theorem C10_chunked_result_is_cast_of_single:
  assumes single: "periods one \<le> 300" and chunked: "300 < periods many"
    and window: "start_date many = start_date one \<and> end_date many = end_date one"
    and r1: "retrieve_data w one = (calls1, Inr df)"
    and r2: "retrieve_data w many = (calls2, Inr df')"
    and same: "concat (map (\<lambda>rq. candles (candles_api w rq)) (candle_requests calls2))
             = concat (map (\<lambda>rq. candles (candles_api w rq)) (candle_requests calls1))"
  shows "set df \<subseteq> set (concat (map (\<lambda>rq. candles (candles_api w rq)) (candle_requests calls1)))
     \<and> length df' = length df
     \<and> (\<forall>i<length df. r_time (df' ! i) = r_time (df ! i)
           \<and> map (to_float w) (columns (df ! i)) = map Some (columns (df' ! i)))"
proof -
  from retrieve_Inr_single[OF single r1] obtain rq where
    rq: "candle_requests calls1 = [rq]"
      "df = assemble (argsort w) (start_date one) (end_date one) (candles (candles_api w rq))" by blast
  have rows: "concat (map (\<lambda>rq. candles (candles_api w rq)) (candle_requests calls1))
      = candles (candles_api w rq)"
    by (simp add: rq(1))
  from retrieve_Inr_multi[OF chunked r2]
  have "astype_float (to_float w) df = Inr df'"
    by (simp add: same rows window rq(2))
  from astype_float_nth[OF this]
  have len: "length df' = length df"
    and nth: "\<forall>i<length df. cast_row (to_float w) (df ! i) = Some (df' ! i)" by simp_all
  have sub: "set df \<subseteq> set (candles (candles_api w rq))"
    unfolding rq(2) using assemble_in_window by blast
  from len nth sub show ?thesis
    unfolding rows by (auto dest: cast_row_time cast_row_columns)
qed

theorem C10_chunked_result_is_cast_of_single_witness:
  "periods (btc 3600 0 18060) \<le> 300 \<and> 300 < periods (btc 60 0 18060)
   \<and> snd (retrieve_data (example_world fixed_api) (btc 3600 0 18060))
       = Inr [flat_row 0 3, flat_row 60 4, flat_row 120 5]
   \<and> map r_time (projr (snd (retrieve_data (example_world fixed_api) (btc 60 0 18060))))
       = [0, 60, 120]
   \<and> map r_low (projr (snd (retrieve_data (example_world fixed_api) (btc 60 0 18060))))
       = [FloatVal 3, FloatVal 4, FloatVal 5]
   \<and> snd (retrieve_data (example_world fixed_api) (btc 60 0 18060))
       \<noteq> snd (retrieve_data (example_world fixed_api) (btc 3600 0 18060))"
proof -
  define rq1 where "rq1 = \<lparr>rq_ticker = ''BTC-USD'', rq_start = Unix 0, rq_end = Unix 18060,
                     rq_granularity = ''ONE_HOUR'', rq_limit = 5\<rparr>"
  define rq2 where "rq2 = \<lparr>rq_ticker = ''BTC-USD'', rq_start = Text 0, rq_end = Text 18000,
                     rq_granularity = ''ONE_MINUTE'', rq_limit = 301\<rparr>"
  define rq3 where "rq3 = \<lparr>rq_ticker = ''BTC-USD'', rq_start = Text 18000, rq_end = Text 36000,
                     rq_granularity = ''ONE_MINUTE'', rq_limit = 301\<rparr>"
  define df' where "df' = projr (snd (retrieve_data (example_world fixed_api) (btc 60 0 18060)))"
  have single: "periods (btc 3600 0 18060) \<le> 300" by (simp add: example_defs)
  have chunked: "300 < periods (btc 60 0 18060)" by (simp add: example_defs)
  have window: "start_date (btc 60 0 18060) = start_date (btc 3600 0 18060)
      \<and> end_date (btc 60 0 18060) = end_date (btc 3600 0 18060)" by (simp add: btc_def)
  have r1: "retrieve_data (example_world fixed_api) (btc 3600 0 18060)
      = ([GetProducts, GetCandles rq1], Inr [flat_row 0 3, flat_row 60 4, flat_row 120 5])"
    by (simp add: example_defs fixed_api_def rq1_def)
  have r2': "retrieve_data (example_world fixed_api) (btc 60 0 18060)
      = ([GetProducts, GetCandles rq2, GetCandles rq3],
         Inr [\<lparr>r_time = 0, r_low = FloatVal 3, r_high = FloatVal 3, r_open = FloatVal 3,
                r_close = FloatVal 3, r_volume = FloatVal 1\<rparr>,
              \<lparr>r_time = 60, r_low = FloatVal 4, r_high = FloatVal 4, r_open = FloatVal 4,
                r_close = FloatVal 4, r_volume = FloatVal 1\<rparr>,
              \<lparr>r_time = 120, r_low = FloatVal 5, r_high = FloatVal 5, r_open = FloatVal 5,
                r_close = FloatVal 5, r_volume = FloatVal 1\<rparr>])"
    by (simp add: example_defs fixed_api_def rq2_def rq3_def upt_rec[of 0] upt_rec[of 1])
  then have r2: "retrieve_data (example_world fixed_api) (btc 60 0 18060)
      = ([GetProducts, GetCandles rq2, GetCandles rq3], Inr df')"
    by (simp add: df'_def)
  have same: "concat (map (\<lambda>rq. candles (candles_api (example_world fixed_api) rq))
                 (candle_requests [GetProducts, GetCandles rq2, GetCandles rq3]))
            = concat (map (\<lambda>rq. candles (candles_api (example_world fixed_api) rq))
                 (candle_requests [GetProducts, GetCandles rq1]))"
    by (simp add: example_world_def fixed_api_def rq1_def rq2_def rq3_def)
  have "length df' = length [flat_row 0 3, flat_row 60 4, flat_row 120 5 :: cell row]"
    using C10_chunked_result_is_cast_of_single[OF single chunked window r1 r2 same] by blast
  then show ?thesis
    using single chunked r1 r2' by (simp add: df'_def flat_row_def)
qed

end
